theory Spec2Isabelle
  imports
    Main
    "HOL-Library.Char_ord"
    "HOL-Library.List_Lexorder"
    "HOL-Library.Multiset"
    "HOL-Library.Monad_Syntax"
begin

section \<open>The maintenance-history view: data model\<close>

text \<open>
  Source: \<^verbatim>\<open>src/components/HistoryModal.tsx\<close>. A JavaScript string is a \<open>string\<close>,
  ordered the way \<^verbatim>\<open><\<close> orders two strings: lexicographically, code unit by code
  unit, a proper prefix first. A JavaScript number that is an integer is an \<open>int\<close>; a
  number that may be \<^verbatim>\<open>NaN\<close> is an \<open>int option\<close>, \<open>None\<close> being \<^verbatim>\<open>NaN\<close>.
\<close>

text \<open>
  Modelled from the spec: the declarations of \<^verbatim>\<open>HistoryEntry\<close>, \<^verbatim>\<open>Workshop\<close> and
  \<^verbatim>\<open>HistoryEntryWithStatus\<close> (\<^verbatim>\<open>../types\<close>) are not among the sources. The fields are
  the ones the component reads, with the references of section 3 of the specification;
  the status has the two values of that section, \<open>Overdue\<close> being the one string literal the
  component compares a status with (lines 75 to 78) and \<open>OnTime\<close> every other value.
\<close>

datatype Status = OnTime | Overdue

record HistoryEntry =
  id' :: string
  workshopId :: string
  equipmentId :: string
  equipmentName :: string
  taskId :: string
  taskName :: string
  maintenanceDate :: string
  notes' :: "string option"
  editCount :: int

record HistoryEntryWithStatus = HistoryEntry +
  workshopName :: string
  status :: Status
  overdueDays :: int

record Workshop =
  Workshop_id :: string
  Workshop_name :: string
  Workshop_interval :: int

datatype SortKey = WorkshopName | EquipmentName | TaskName | MaintenanceDate | StatusKey

datatype SortDirection = Asc | Desc

datatype UserRole = Editor | Viewer


section \<open>Dates\<close>

text \<open>
  \<^verbatim>\<open>new Date(s)\<close> is the language's own parser: a time value in milliseconds since
  the epoch, or \<^verbatim>\<open>NaN\<close> (an invalid date). Every function below takes the parser as its
  first argument \<open>parse\<close>, so what is proved holds for whatever the engine's parser
  answers. Two Date objects compared by \<^verbatim>\<open><\<close> or \<^verbatim>\<open>>\<close> are compared by their time
  values, and a comparison with \<^verbatim>\<open>NaN\<close> is false.
\<close>

type_synonym Date_parse = "string \<Rightarrow> int option"

fun js_lt :: "int option \<Rightarrow> int option \<Rightarrow> bool" where
  "js_lt (Some a) (Some b) = (a < b)"
| "js_lt _ _ = False"

fun js_gt :: "int option \<Rightarrow> int option \<Rightarrow> bool" where
  "js_gt (Some a) (Some b) = (a > b)"
| "js_gt _ _ = False"

fun js_minus :: "int option \<Rightarrow> int option \<Rightarrow> int option" where
  "js_minus (Some a) (Some b) = Some (a - b)"
| "js_minus _ _ = None"

text \<open>
  A concrete parser for the concrete inputs below: the date-time string format of the
  language standard, in the forms \<^verbatim>\<open>YYYY-MM-DD\<close> (midnight UTC),
  \<^verbatim>\<open>YYYY-MM-DDTHH:mm:ssZ\<close> and \<^verbatim>\<open>YYYY-MM-DDTHH:mm:ss.sssZ\<close>. Any other string is an
  invalid date here.
\<close>

definition digit :: "char \<Rightarrow> int option" where
  "digit c = (let n = (of_char c :: nat) in
     if 48 \<le> n \<and> n \<le> 57 then Some (int n - 48) else None)"

fun digits_from :: "int \<Rightarrow> string \<Rightarrow> int option" where
  "digits_from acc [] = Some acc"
| "digits_from acc (c # cs) =
     (case digit c of None \<Rightarrow> None | Some d \<Rightarrow> digits_from (10 * acc + d) cs)"

definition number_of :: "string \<Rightarrow> int option" where
  "number_of s = (if s = [] then None else digits_from 0 s)"

definition leap_year :: "int \<Rightarrow> bool" where
  "leap_year y = (y mod 4 = 0 \<and> (y mod 100 \<noteq> 0 \<or> y mod 400 = 0))"

definition days_in_month :: "int \<Rightarrow> int \<Rightarrow> int" where
  "days_in_month y m =
     (if m = 2 then (if leap_year y then 29 else 28)
      else if m = 4 \<or> m = 6 \<or> m = 9 \<or> m = 11 then 30 else 31)"

definition days_from_civil :: "int \<Rightarrow> int \<Rightarrow> int \<Rightarrow> int" where
  "days_from_civil y m d =
     (let y1 = (if m \<le> 2 then y - 1 else y);
          era = y1 div 400;
          yoe = y1 - era * 400;
          mp = (if m > 2 then m - 3 else m + 9);
          doy = (153 * mp + 2) div 5 + d - 1;
          doe = yoe * 365 + yoe div 4 - yoe div 100 + doy
      in era * 146097 + doe - 719468)"

definition msPerDay :: int where
  "msPerDay = 86400000"

definition parse_day :: "string \<Rightarrow> int option" where
  "parse_day s =
     (if length s = 10 \<and> s ! 4 = CHR ''-'' \<and> s ! 7 = CHR ''-'' then
        (case (number_of (take 4 s), number_of (take 2 (drop 5 s)), number_of (drop 8 s)) of
           (Some y, Some m, Some d) \<Rightarrow>
             if 1 \<le> m \<and> m \<le> 12 \<and> 1 \<le> d \<and> d \<le> days_in_month y m
             then Some (days_from_civil y m d) else None
         | _ \<Rightarrow> None)
      else None)"

definition parse_time :: "string \<Rightarrow> int option" where
  "parse_time s =
     (if length s = 8 \<and> s ! 2 = CHR '':'' \<and> s ! 5 = CHR '':'' then
        (case (number_of (take 2 s), number_of (take 2 (drop 3 s)), number_of (drop 6 s)) of
           (Some h, Some mi, Some sec) \<Rightarrow>
             if h \<le> 23 \<and> mi \<le> 59 \<and> sec \<le> 59
             then Some (((h * 60 + mi) * 60 + sec) * 1000) else None
         | _ \<Rightarrow> None)
      else None)"

definition Date_parse_iso :: Date_parse where
  "Date_parse_iso s =
     (if length s = 10 then map_option (\<lambda>d. d * msPerDay) (parse_day s)
      else if length s = 20 \<and> s ! 10 = CHR ''T'' \<and> s ! 19 = CHR ''Z'' then
        (case (parse_day (take 10 s), parse_time (take 8 (drop 11 s))) of
           (Some d, Some t) \<Rightarrow> Some (d * msPerDay + t)
         | _ \<Rightarrow> None)
      else if length s = 24 \<and> s ! 10 = CHR ''T'' \<and> s ! 19 = CHR ''.'' \<and> s ! 23 = CHR ''Z'' then
        (case (parse_day (take 10 s), parse_time (take 8 (drop 11 s)),
               number_of (take 3 (drop 20 s))) of
           (Some d, Some t, Some ms) \<Rightarrow> Some (d * msPerDay + t + ms)
         | _ \<Rightarrow> None)
      else None)"

text \<open>
  The calendar day (UTC) of a date string, as a day number: what a comparison by date
  alone, with the time of day left out, would compare.
\<close>

definition calendarDay :: "Date_parse \<Rightarrow> string \<Rightarrow> int option" where
  "calendarDay parse s = map_option (\<lambda>t. t div msPerDay) (parse s)"


section \<open>History filter\<close>

text \<open>
  The callback of \<^verbatim>\<open>processedHistory.filter\<close> (lines 33 to 60). A string is truthy when
  it is not empty.
\<close>

definition keepEntry ::
  "Date_parse \<Rightarrow> string \<Rightarrow> string \<Rightarrow> string \<Rightarrow> HistoryEntryWithStatus \<Rightarrow> bool" where
  "keepEntry parse selectedWorkshop startDate endDate entry =
     (if selectedWorkshop \<noteq> ''all'' \<and> workshopId entry \<noteq> selectedWorkshop then False
      else if startDate \<noteq> [] \<or> endDate \<noteq> [] then
        (let entryDate = parse (maintenanceDate entry) in
         if startDate \<noteq> [] \<and> js_lt entryDate (parse startDate) then False
         else if endDate \<noteq> [] \<and> js_gt entryDate (parse endDate) then False
         else True)
      else True)"

definition filteredHistory ::
  "Date_parse \<Rightarrow> HistoryEntryWithStatus list \<Rightarrow> string \<Rightarrow> string \<Rightarrow> string
     \<Rightarrow> HistoryEntryWithStatus list" where
  "filteredHistory parse processedHistory selectedWorkshop startDate endDate =
     filter (keepEntry parse selectedWorkshop startDate endDate) processedHistory"


section \<open>History sorter\<close>

text \<open>
  \<^verbatim>\<open>a[sortKey]\<close>, read by the generic comparison at the end of the comparator
  (lines 82 to 84). Only the three name keys reach that comparison: the date key and
  the status key return before it, so the value given here for the status key, whose
  field is not a string in this model, is never compared.
\<close>

fun fieldOf :: "SortKey \<Rightarrow> HistoryEntryWithStatus \<Rightarrow> string" where
  "fieldOf WorkshopName e = workshopName e"
| "fieldOf EquipmentName e = equipmentName e"
| "fieldOf TaskName e = taskName e"
| "fieldOf MaintenanceDate e = maintenanceDate e"
| "fieldOf StatusKey e = []"

text \<open>The comparator handed to \<^verbatim>\<open>sortable.sort\<close> (lines 65 to 85).\<close>

definition compareEntries ::
  "Date_parse \<Rightarrow> SortKey \<Rightarrow> HistoryEntryWithStatus \<Rightarrow> HistoryEntryWithStatus \<Rightarrow> int option" where
  "compareEntries parse sortKey a b =
     (if sortKey = MaintenanceDate then
        js_minus (parse (maintenanceDate a)) (parse (maintenanceDate b))
      else if sortKey = StatusKey then
        (if status a = Overdue \<and> status b \<noteq> Overdue then Some (- 1)
         else if status a \<noteq> Overdue \<and> status b = Overdue then Some 1
         else if status a = Overdue \<and> status b = Overdue
           then Some (overdueDays b - overdueDays a)
         else Some 0)
      else if fieldOf sortKey a < fieldOf sortKey b then Some (- 1)
      else if fieldOf sortKey a > fieldOf sortKey b then Some 1
      else Some 0)"

text \<open>
  \<^verbatim>\<open>Array.prototype.sort\<close> with a comparator: the language requires a stable sort and
  reads a \<^verbatim>\<open>NaN\<close> answer of the comparator as \<open>0\<close>. For a consistent comparator the
  stable sorted order is unique, and it is the one this insertion sort computes: the
  elements are inserted from the last to the first, each before the first element it
  does not come after. (For an inconsistent comparator the language leaves the order
  to the engine; the only one here is the date comparator on invalid dates.)
\<close>

definition SortCompare :: "('a \<Rightarrow> 'a \<Rightarrow> int option) \<Rightarrow> 'a \<Rightarrow> 'a \<Rightarrow> int" where
  "SortCompare comparefn x y = (case comparefn x y of None \<Rightarrow> 0 | Some v \<Rightarrow> v)"

fun place :: "('a \<Rightarrow> 'a \<Rightarrow> int option) \<Rightarrow> 'a \<Rightarrow> 'a list \<Rightarrow> 'a list" where
  "place comparefn x [] = [x]"
| "place comparefn x (y # ys) =
     (if SortCompare comparefn x y \<le> 0 then x # y # ys else y # place comparefn x ys)"

fun Array_sort :: "('a \<Rightarrow> 'a \<Rightarrow> int option) \<Rightarrow> 'a list \<Rightarrow> 'a list" where
  "Array_sort comparefn [] = []"
| "Array_sort comparefn (x # xs) = place comparefn x (Array_sort comparefn xs)"

text \<open>
  The value of \<^verbatim>\<open>sortedHistory\<close> (lines 63 to 91): a copy of the filtered list is
  sorted, and reversed when the direction is descending.
\<close>

definition sortedHistory ::
  "Date_parse \<Rightarrow> HistoryEntryWithStatus list \<Rightarrow> SortKey \<Rightarrow> SortDirection
     \<Rightarrow> HistoryEntryWithStatus list" where
  "sortedHistory parse filtered sortKey sortDirection =
     (let sortable = Array_sort (compareEntries parse sortKey) filtered
      in if sortDirection = Desc then rev sortable else sortable)"

text \<open>
  Sorting with the comparator's sign inverted, which is what the component does not do:
  the reading of "descending" that the specification sets against reversing the list.
\<close>

definition sortInvertedComparator ::
  "Date_parse \<Rightarrow> HistoryEntryWithStatus list \<Rightarrow> SortKey \<Rightarrow> HistoryEntryWithStatus list" where
  "sortInvertedComparator parse filtered sortKey =
     Array_sort (\<lambda>a b. map_option uminus (compareEntries parse sortKey a b)) filtered"


section \<open>The arrays in a store\<close>

text \<open>
  \<^verbatim>\<open>sort\<close> and \<^verbatim>\<open>reverse\<close> write into the array they are called on, while
  \<^verbatim>\<open>filter\<close> and the spread \<^verbatim>\<open>[...xs]\<close> build a new one. To tell the two apart, an
  array is an address into a store, the list of all arrays made so far; \<open>None\<close> is an
  address that was never allocated, which the component cannot hold.
\<close>

type_synonym 'a store = "'a list list"

definition load :: "'a store \<Rightarrow> nat \<Rightarrow> 'a list option" where
  "load h a = (if a < length h then Some (h ! a) else None)"

definition alloc :: "'a list \<Rightarrow> 'a store \<Rightarrow> nat \<times> 'a store" where
  "alloc xs h = (length h, h @ [xs])"

definition Array_filter_st :: "('a \<Rightarrow> bool) \<Rightarrow> nat \<Rightarrow> 'a store \<Rightarrow> (nat \<times> 'a store) option" where
  "Array_filter_st p a h = map_option (\<lambda>xs. alloc (filter p xs) h) (load h a)"

definition Array_spread_st :: "nat \<Rightarrow> 'a store \<Rightarrow> (nat \<times> 'a store) option" where
  "Array_spread_st a h = map_option (\<lambda>xs. alloc xs h) (load h a)"

definition Array_sort_st ::
  "('a \<Rightarrow> 'a \<Rightarrow> int option) \<Rightarrow> nat \<Rightarrow> 'a store \<Rightarrow> 'a store option" where
  "Array_sort_st comparefn a h = map_option (\<lambda>xs. h[a := Array_sort comparefn xs]) (load h a)"

definition Array_reverse_st :: "nat \<Rightarrow> 'a store \<Rightarrow> 'a store option" where
  "Array_reverse_st a h = map_option (\<lambda>xs. h[a := rev xs]) (load h a)"

definition filteredHistory_st ::
  "Date_parse \<Rightarrow> nat \<Rightarrow> string \<Rightarrow> string \<Rightarrow> string \<Rightarrow> HistoryEntryWithStatus store
     \<Rightarrow> (nat \<times> HistoryEntryWithStatus store) option" where
  "filteredHistory_st parse processedHistory selectedWorkshop startDate endDate h =
     Array_filter_st (keepEntry parse selectedWorkshop startDate endDate) processedHistory h"

definition sortedHistory_st ::
  "Date_parse \<Rightarrow> nat \<Rightarrow> SortKey \<Rightarrow> SortDirection \<Rightarrow> HistoryEntryWithStatus store
     \<Rightarrow> (nat \<times> HistoryEntryWithStatus store) option" where
  "sortedHistory_st parse filtered sortKey sortDirection h =
     do {
       (sortable, h1) \<leftarrow> Array_spread_st filtered h;
       h2 \<leftarrow> Array_sort_st (compareEntries parse sortKey) sortable h1;
       h3 \<leftarrow> (if sortDirection = Desc then Array_reverse_st sortable h2 else Some h2);
       Some (sortable, h3)
     }"


section \<open>The component's state and its events\<close>

record ViewState =
  editingEntry :: "HistoryEntryWithStatus option"
  sortKey :: SortKey
  sortDirection :: SortDirection
  startDate :: string
  endDate :: string
  selectedWorkshop :: string

text \<open>The initial values of the six \<^verbatim>\<open>useState\<close> cells (lines 20 to 26).\<close>

definition initialState :: ViewState where
  "initialState =
     \<lparr>editingEntry = None, sortKey = MaintenanceDate, sortDirection = Desc,
      startDate = [], endDate = [], selectedWorkshop = ''all''\<rparr>"

text \<open>\<^verbatim>\<open>handleSort\<close> (lines 93 to 100).\<close>

definition handleSort :: "SortKey \<Rightarrow> ViewState \<Rightarrow> ViewState" where
  "handleSort key st =
     (if sortKey st = key
      then st\<lparr>sortDirection := (if sortDirection st = Asc then Desc else Asc)\<rparr>
      else st\<lparr>sortKey := key, sortDirection := Asc\<rparr>)"

text \<open>The click handler of the clear-filters button (lines 173 to 177).\<close>

definition clearFilters :: "ViewState \<Rightarrow> ViewState" where
  "clearFilters st = st\<lparr>startDate := [], endDate := [], selectedWorkshop := ''all''\<rparr>"

text \<open>
  The edit button of a row (lines 220 to 231): it exists for an editor only, its
  \<^verbatim>\<open>disabled\<close> attribute is \<^verbatim>\<open>entry.editCount >= 2\<close>, and a click on a button that
  exists and is not disabled runs \<^verbatim>\<open>setEditingEntry(entry)\<close>.
\<close>

definition editDisabled :: "HistoryEntryWithStatus \<Rightarrow> bool" where
  "editDisabled entry = (editCount entry \<ge> 2)"

definition canEdit :: "HistoryEntryWithStatus \<Rightarrow> bool" where
  "canEdit entry = (\<not> editDisabled entry)"

definition editsLeft :: "HistoryEntryWithStatus \<Rightarrow> int" where
  "editsLeft entry = 2 - editCount entry"

definition clickEdit :: "UserRole \<Rightarrow> HistoryEntryWithStatus \<Rightarrow> ViewState \<Rightarrow> ViewState" where
  "clickEdit userRole entry st =
     (if userRole = Editor \<and> \<not> editDisabled entry then st\<lparr>editingEntry := Some entry\<rparr> else st)"

text \<open>The rows the table shows and the export receives, for a state of the component.\<close>

definition displayed :: "Date_parse \<Rightarrow> HistoryEntryWithStatus list \<Rightarrow> ViewState
    \<Rightarrow> HistoryEntryWithStatus list" where
  "displayed parse processedHistory st =
     sortedHistory parse
       (filteredHistory parse processedHistory (selectedWorkshop st) (startDate st) (endDate st))
       (sortKey st) (sortDirection st)"

text \<open>The same in the store: the two memoised computations, one after the other.\<close>

definition displayed_st :: "Date_parse \<Rightarrow> nat \<Rightarrow> ViewState \<Rightarrow> HistoryEntryWithStatus store
    \<Rightarrow> (nat \<times> nat \<times> HistoryEntryWithStatus store) option" where
  "displayed_st parse processedHistory st h =
     do {
       (filtered, h1) \<leftarrow>
         filteredHistory_st parse processedHistory (selectedWorkshop st) (startDate st) (endDate st) h;
       (sorted, h2) \<leftarrow> sortedHistory_st parse filtered (sortKey st) (sortDirection st) h1;
       Some (filtered, sorted, h2)
     }"


section \<open>Timeliness calculator\<close>

text \<open>
  Modelled from the spec: \<^verbatim>\<open>calculateHistoryTimeliness\<close> (\<^verbatim>\<open>../utils/historyUtils\<close>)
  is not among the sources. Section 4.1 of the specification: the workshop of an entry
  is looked up by identifier and an entry whose workshop is absent is left out (the
  first of the two policies section 7 allows); the due date is the maintenance date
  plus the workshop's interval; when the reference date is after the due date the
  entry is overdue by the whole days between the two, and otherwise it is on time with
  0 days. Dates are calendar dates (section 3), here day numbers: \<open>dayOf\<close> gives the day
  number of a date string, and the reference date is a parameter.
\<close>

definition timeliness :: "int \<Rightarrow> int \<Rightarrow> int \<Rightarrow> Status \<times> int" where
  "timeliness referenceDay maintenanceDay interval =
     (let due = maintenanceDay + interval
      in if referenceDay > due then (Overdue, referenceDay - due) else (OnTime, 0))"

text \<open>
  Modelled from the spec: the lookup of an entry's workshop by its identifier (section
  4.1), the first workshop of the list with that identifier.
\<close>

definition findWorkshop :: "Workshop list \<Rightarrow> string \<Rightarrow> Workshop option" where
  "findWorkshop workshops wid = find (\<lambda>w. Workshop_id w = wid) workshops"

text \<open>
  Modelled from the spec: one derived entry (sections 3 and 4.1), the history entry with
  the workshop's name, the status and the overdue days added; none when the workshop
  is absent.
\<close>

definition deriveEntry ::
  "(string \<Rightarrow> int) \<Rightarrow> int \<Rightarrow> Workshop list \<Rightarrow> HistoryEntry \<Rightarrow> HistoryEntryWithStatus option" where
  "deriveEntry dayOf referenceDay workshops entry =
     (case findWorkshop workshops (workshopId entry) of
        None \<Rightarrow> None
      | Some w \<Rightarrow>
          (case timeliness referenceDay (dayOf (maintenanceDate entry)) (Workshop_interval w) of
             (st, days) \<Rightarrow>
               Some (HistoryEntry.extend entry
                 (HistoryEntryWithStatus.fields (Workshop_name w) st days))))"

text \<open>
  Modelled from the spec: \<^verbatim>\<open>compute(history, workshops)\<close> of section 4.1, the derived
  entries in the order of the history.
\<close>

definition calculateHistoryTimeliness ::
  "(string \<Rightarrow> int) \<Rightarrow> int \<Rightarrow> HistoryEntry list \<Rightarrow> Workshop list \<Rightarrow> HistoryEntryWithStatus list" where
  "calculateHistoryTimeliness dayOf referenceDay history workshops =
     List.map_filter (deriveEntry dayOf referenceDay workshops) history"

text \<open>The day number of a date string of the form \<^verbatim>\<open>YYYY-MM-DD\<close>, 0 for any other string.\<close>

definition dayOf_iso :: "string \<Rightarrow> int" where
  "dayOf_iso s = (case parse_day s of None \<Rightarrow> 0 | Some d \<Rightarrow> d)"


section \<open>Sample data\<close>

text \<open>Entries for the concrete instances below.\<close>

definition sampleEntry ::
  "string \<Rightarrow> string \<Rightarrow> string \<Rightarrow> Status \<Rightarrow> int \<Rightarrow> int \<Rightarrow> HistoryEntryWithStatus" where
  "sampleEntry i w d s od ec =
     \<lparr>id' = i, workshopId = w, equipmentId = ''E1'', equipmentName = ''Pump'',
      taskId = ''T1'', taskName = ''Oil'', maintenanceDate = d, notes' = None,
      editCount = ec, workshopName = w, status = s, overdueDays = od\<rparr>"

definition sampleA :: HistoryEntryWithStatus where
  "sampleA = sampleEntry ''a'' ''W1'' ''2024-01-01'' OnTime 0 0"

definition sampleB :: HistoryEntryWithStatus where
  "sampleB = sampleEntry ''b'' ''W2'' ''2024-01-02'' Overdue 3 1"

definition sampleC :: HistoryEntryWithStatus where
  "sampleC = sampleEntry ''c'' ''W1'' ''2024-01-03'' OnTime 0 2"

definition sampleD :: HistoryEntryWithStatus where
  "sampleD = sampleEntry ''d'' ''W2'' ''2024-01-04'' Overdue 7 0"

definition sampleE :: HistoryEntryWithStatus where
  "sampleE = sampleEntry ''e'' ''W1'' ''2024-01-05'' Overdue 3 0"

definition sampleHistory :: "HistoryEntryWithStatus list" where
  "sampleHistory = [sampleA, sampleB, sampleC, sampleD, sampleE]"

text \<open>An entry logged with a time of day, and one whose date is not a date.\<close>

definition sampleTimed :: HistoryEntryWithStatus where
  "sampleTimed = sampleEntry ''t'' ''W1'' ''2024-01-31T10:00:00Z'' OnTime 0 0"

definition sampleUndated :: HistoryEntryWithStatus where
  "sampleUndated = sampleEntry ''u'' ''W1'' [] OnTime 0 0"

text \<open>The example of section 8 of the specification: an interval of 30 days.\<close>

definition sampleWorkshops :: "Workshop list" where
  "sampleWorkshops =
     [\<lparr>Workshop_id = ''W1'', Workshop_name = ''Workshop 1'', Workshop_interval = 30\<rparr>]"

definition sampleRaw :: HistoryEntry where
  "sampleRaw =
     \<lparr>id' = ''r'', workshopId = ''W1'', equipmentId = ''E1'', equipmentName = ''Pump'',
      taskId = ''T1'', taskName = ''Oil'', maintenanceDate = ''2024-01-01'', notes' = None,
      editCount = 0\<rparr>"

lemmas sample_defs =
  sampleHistory_def sampleA_def sampleB_def sampleC_def sampleD_def sampleE_def
  sampleTimed_def sampleUndated_def sampleEntry_def


section \<open>The sort is a stable sort\<close>

lemma mset_place: "mset (place c x ys) = add_mset x (mset ys)"
  by (induction ys) simp_all

lemma mset_Array_sort: "mset (Array_sort c xs) = mset xs"
  by (induction xs) (simp_all add: mset_place)

lemma set_place: "set (place c x ys) = insert x (set ys)"
  by (induction ys) auto

lemma sorted_wrt_place:
  assumes tr: "\<And>a b d. SortCompare c a b \<le> 0 \<Longrightarrow> SortCompare c b d \<le> 0 \<Longrightarrow> SortCompare c a d \<le> 0"
    and tot: "\<And>a b. \<not> SortCompare c a b \<le> 0 \<Longrightarrow> SortCompare c b a \<le> 0"
    and srt: "sorted_wrt (\<lambda>a b. SortCompare c a b \<le> 0) ys"
  shows "sorted_wrt (\<lambda>a b. SortCompare c a b \<le> 0) (place c x ys)"
  using srt
proof (induction ys)
  case Nil
  show ?case by simp
next
  case (Cons y ys)
  show ?case
  proof (cases "SortCompare c x y \<le> 0")
    case True
    have "\<forall>z\<in>set ys. SortCompare c x z \<le> 0"
      using Cons.prems True tr by auto
    with True Cons.prems show ?thesis by simp
  next
    case False
    then have "SortCompare c y x \<le> 0" by (rule tot)
    with False Cons show ?thesis by (auto simp: set_place)
  qed
qed

lemma sorted_wrt_Array_sort:
  assumes tr: "\<And>a b d. SortCompare c a b \<le> 0 \<Longrightarrow> SortCompare c b d \<le> 0 \<Longrightarrow> SortCompare c a d \<le> 0"
    and tot: "\<And>a b. \<not> SortCompare c a b \<le> 0 \<Longrightarrow> SortCompare c b a \<le> 0"
  shows "sorted_wrt (\<lambda>a b. SortCompare c a b \<le> 0) (Array_sort c xs)"
proof (induction xs)
  case Nil
  show ?case by simp
next
  case (Cons x xs)
  show ?case using sorted_wrt_place [OF tr tot Cons.IH] by simp
qed

lemma filter_place_member:
  assumes "P x" and "\<And>y. P y \<Longrightarrow> SortCompare c x y \<le> 0"
  shows "filter P (place c x ys) = x # filter P ys"
  using assms by (induction ys) auto

lemma filter_place_other: "\<not> P x \<Longrightarrow> filter P (place c x ys) = filter P ys"
  by (induction ys) auto

lemma filter_Array_sort:
  assumes "\<And>x y. P x \<Longrightarrow> P y \<Longrightarrow> SortCompare c x y \<le> 0"
  shows "filter P (Array_sort c xs) = filter P xs"
proof (induction xs)
  case Nil
  show ?case by simp
next
  case (Cons x xs)
  show ?case
  proof (cases "P x")
    case True
    then show ?thesis using assms Cons.IH by (simp add: filter_place_member)
  next
    case False
    then show ?thesis using Cons.IH by (simp add: filter_place_other)
  qed
qed

lemma status_compare_cases:
  "SortCompare (compareEntries parse StatusKey) a b =
     (if status a = Overdue then (if status b = Overdue then overdueDays b - overdueDays a else - 1)
      else (if status b = Overdue then 1 else 0))"
  by (simp add: SortCompare_def compareEntries_def)

lemma status_compare_trans:
  "SortCompare (compareEntries parse StatusKey) a b \<le> 0 \<Longrightarrow>
   SortCompare (compareEntries parse StatusKey) b d \<le> 0 \<Longrightarrow>
   SortCompare (compareEntries parse StatusKey) a d \<le> 0"
  by (simp add: status_compare_cases split: if_splits)

lemma status_compare_total:
  "\<not> SortCompare (compareEntries parse StatusKey) a b \<le> 0 \<Longrightarrow>
   SortCompare (compareEntries parse StatusKey) b a \<le> 0"
  by (simp add: status_compare_cases split: if_splits)

lemma status_sorted:
  "sorted_wrt (\<lambda>a b. SortCompare (compareEntries parse StatusKey) a b \<le> 0)
     (Array_sort (compareEntries parse StatusKey) xs)"
  by (rule sorted_wrt_Array_sort) (erule (1) status_compare_trans, erule status_compare_total)

lemma sorted_wrt_index:
  assumes "sorted_wrt R ys" "i < length ys" "j < length ys" "\<not> R (ys ! j) (ys ! i)" "i \<noteq> j"
  shows "i < j"
proof (rule ccontr)
  assume "\<not> i < j"
  with assms(5) have "j < i" by simp
  with assms(1,2) have "R (ys ! j) (ys ! i)" by (simp add: sorted_wrt_iff_nth_less)
  with assms(4) show False by simp
qed


section \<open>Sorting by status\<close>

text \<open>
  C1. Sorting by the status key in ascending direction permutes the list so that every
  overdue entry stands before every on-time entry and, of two overdue entries, the one
  with more overdue days stands first. In the remaining cases (two on-time entries, two
  overdue entries with the same number of days) the comparator answers 0, and the
  entries of each such class keep the order they had in the input.
\<close>

theorem sort_by_status_ascending:
  "(let ys = sortedHistory parse xs StatusKey Asc in
     mset ys = mset xs
   \<and> (\<forall>i j. i < length ys \<and> j < length ys \<and> status (ys ! i) = Overdue \<and> status (ys ! j) = OnTime
        \<longrightarrow> i < j)
   \<and> (\<forall>i j. i < length ys \<and> j < length ys \<and> status (ys ! i) = Overdue \<and> status (ys ! j) = Overdue
          \<and> overdueDays (ys ! i) > overdueDays (ys ! j)
        \<longrightarrow> i < j)
   \<and> (\<forall>a b. status a = OnTime \<and> status b = OnTime
          \<or> status a = Overdue \<and> status b = Overdue \<and> overdueDays a = overdueDays b
        \<longrightarrow> compareEntries parse StatusKey a b = Some 0)
   \<and> filter (\<lambda>e. status e = OnTime) ys = filter (\<lambda>e. status e = OnTime) xs
   \<and> (\<forall>d. filter (\<lambda>e. status e = Overdue \<and> overdueDays e = d) ys
          = filter (\<lambda>e. status e = Overdue \<and> overdueDays e = d) xs))"
proof -
  let ?c = "compareEntries parse StatusKey"
  let ?R = "\<lambda>a b. SortCompare ?c a b \<le> 0"
  define ys where "ys = Array_sort ?c xs"
  have ys: "sortedHistory parse xs StatusKey Asc = ys"
    by (simp add: sortedHistory_def ys_def)
  have srt: "sorted_wrt ?R ys"
    unfolding ys_def by (rule status_sorted)
  have perm: "mset ys = mset xs"
    unfolding ys_def by (rule mset_Array_sort)
  have first: "i < j"
    if "i < length ys" "j < length ys" "status (ys ! i) = Overdue" "status (ys ! j) = OnTime"
    for i j
  proof (rule sorted_wrt_index [OF srt that(1,2)])
    show "\<not> ?R (ys ! j) (ys ! i)" using that by (simp add: status_compare_cases)
    show "i \<noteq> j" using that by auto
  qed
  have second: "i < j"
    if "i < length ys" "j < length ys" "status (ys ! i) = Overdue" "status (ys ! j) = Overdue"
       "overdueDays (ys ! i) > overdueDays (ys ! j)"
    for i j
  proof (rule sorted_wrt_index [OF srt that(1,2)])
    show "\<not> ?R (ys ! j) (ys ! i)" using that by (simp add: status_compare_cases)
    show "i \<noteq> j" using that by auto
  qed
  have ties: "?c a b = Some 0"
    if "status a = OnTime \<and> status b = OnTime
        \<or> status a = Overdue \<and> status b = Overdue \<and> overdueDays a = overdueDays b"
    for a b
    using that by (auto simp: compareEntries_def)
  have keep1: "filter (\<lambda>e. status e = OnTime) ys = filter (\<lambda>e. status e = OnTime) xs"
    unfolding ys_def by (rule filter_Array_sort) (simp add: status_compare_cases)
  have keep2: "filter (\<lambda>e. status e = Overdue \<and> overdueDays e = d) ys
          = filter (\<lambda>e. status e = Overdue \<and> overdueDays e = d) xs" for d
    unfolding ys_def by (rule filter_Array_sort) (simp add: status_compare_cases)
  show ?thesis
    unfolding ys Let_def using perm first second ties keep1 keep2 by blast
qed

theorem sort_by_status_ascending_witness:
  "sortedHistory Date_parse_iso sampleHistory StatusKey Asc
     = [sampleD, sampleB, sampleE, sampleA, sampleC]
   \<and> mset (sortedHistory Date_parse_iso sampleHistory StatusKey Asc) = mset sampleHistory
   \<and> filter (\<lambda>e. status e = OnTime) (sortedHistory Date_parse_iso sampleHistory StatusKey Asc)
       = [sampleA, sampleC]
   \<and> filter (\<lambda>e. status e = Overdue \<and> overdueDays e = 3)
         (sortedHistory Date_parse_iso sampleHistory StatusKey Asc)
       = [sampleB, sampleE]"
proof -
  have ev: "sortedHistory Date_parse_iso sampleHistory StatusKey Asc
     = [sampleD, sampleB, sampleE, sampleA, sampleC]"
    by (simp add: sortedHistory_def sample_defs status_compare_cases)
  have a: "filter (\<lambda>e. status e = OnTime) sampleHistory = [sampleA, sampleC]"
    by (simp add: sample_defs)
  have b: "filter (\<lambda>e. status e = Overdue \<and> overdueDays e = 3) sampleHistory = [sampleB, sampleE]"
    by (simp add: sample_defs)
  from sort_by_status_ascending [of Date_parse_iso sampleHistory] a b ev
  show ?thesis unfolding Let_def by metis
qed

section \<open>Direction\<close>

text \<open>
  C2. For every list and every sort key, the descending result is the reversal of the
  ascending result of the same list. This is not sorting with the inverted comparator:
  two distinct entries that the comparator ties stay in input order under either
  comparator, so the descending result has them swapped while the inverted comparator
  leaves them as they were.
\<close>

theorem descending_is_reversed_ascending:
  "(\<forall>xs key. sortedHistory parse xs key Desc = rev (sortedHistory parse xs key Asc))
   \<and> (\<forall>key a b. a \<noteq> b \<and> SortCompare (compareEntries parse key) a b = 0
        \<longrightarrow> sortedHistory parse [a, b] key Asc = [a, b]
          \<and> sortedHistory parse [a, b] key Desc = [b, a]
          \<and> sortInvertedComparator parse [a, b] key = [a, b]
          \<and> sortedHistory parse [a, b] key Desc \<noteq> sortInvertedComparator parse [a, b] key)"
proof -
  have rev_all: "sortedHistory parse xs key Desc = rev (sortedHistory parse xs key Asc)" for xs key
    by (simp add: sortedHistory_def)
  have inv: "SortCompare (\<lambda>a b. map_option uminus (compareEntries parse key a b)) a b
      = - SortCompare (compareEntries parse key) a b" for key a b
    by (simp add: SortCompare_def split: option.splits)
  have tie: "sortedHistory parse [a, b] key Asc = [a, b]
          \<and> sortedHistory parse [a, b] key Desc = [b, a]
          \<and> sortInvertedComparator parse [a, b] key = [a, b]
          \<and> sortedHistory parse [a, b] key Desc \<noteq> sortInvertedComparator parse [a, b] key"
    if "a \<noteq> b" "SortCompare (compareEntries parse key) a b = 0" for key a b
    using that by (simp add: sortedHistory_def sortInvertedComparator_def inv)
  show ?thesis using rev_all tie by blast
qed

theorem descending_is_reversed_ascending_witness:
  "sampleA \<noteq> sampleC
   \<and> SortCompare (compareEntries Date_parse_iso StatusKey) sampleA sampleC = 0
   \<and> sortedHistory Date_parse_iso [sampleA, sampleC] StatusKey Desc = [sampleC, sampleA]
   \<and> sortInvertedComparator Date_parse_iso [sampleA, sampleC] StatusKey = [sampleA, sampleC]
   \<and> sortedHistory Date_parse_iso sampleHistory StatusKey Desc
       = rev (sortedHistory Date_parse_iso sampleHistory StatusKey Asc)"
proof -
  have ne: "sampleA \<noteq> sampleC" by (simp add: sample_defs)
  have tie: "SortCompare (compareEntries Date_parse_iso StatusKey) sampleA sampleC = 0"
    by (simp add: status_compare_cases sample_defs)
  from descending_is_reversed_ascending [of Date_parse_iso] ne tie
  show ?thesis by blast
qed


section \<open>Filtering by workshop\<close>

lemma keepEntry_no_dates:
  "keepEntry parse sel [] [] = (\<lambda>e. sel = ''all'' \<or> workshopId e = sel)"
  by (rule ext) (simp add: keepEntry_def)

lemma keepEntry_split:
  "keepEntry parse sel sd ed e = ((sel = ''all'' \<or> workshopId e = sel) \<and> keepEntry parse ''all'' sd ed e)"
  by (simp add: keepEntry_def)

text \<open>
  C4. With no date bound the filter keeps exactly the entries for which the selector is
  \<^verbatim>\<open>all\<close> or equals the entry's workshop id, in input order; with date bounds the
  same test is applied on top of the date tests. The selector \<^verbatim>\<open>all\<close> without date
  bounds returns the input, and a workshop id that no entry has returns the empty list.
\<close>

theorem workshop_filter:
  "filteredHistory parse xs sel [] [] = filter (\<lambda>e. sel = ''all'' \<or> workshopId e = sel) xs
   \<and> filteredHistory parse xs sel sd ed
       = filter (\<lambda>e. sel = ''all'' \<or> workshopId e = sel) (filteredHistory parse xs ''all'' sd ed)
   \<and> filteredHistory parse xs ''all'' [] [] = xs
   \<and> (sel \<noteq> ''all'' \<and> (\<forall>e\<in>set xs. workshopId e \<noteq> sel) \<longrightarrow> filteredHistory parse xs sel sd ed = [])"
proof -
  have a: "filteredHistory parse xs sel [] [] = filter (\<lambda>e. sel = ''all'' \<or> workshopId e = sel) xs"
    by (simp add: filteredHistory_def keepEntry_no_dates)
  have b: "filteredHistory parse xs sel sd ed
       = filter (\<lambda>e. sel = ''all'' \<or> workshopId e = sel) (filteredHistory parse xs ''all'' sd ed)"
    unfolding filteredHistory_def filter_filter
    by (rule filter_cong [OF refl]) (use keepEntry_split [of parse sel sd ed] in blast)
  have c: "filteredHistory parse xs ''all'' [] [] = xs"
    by (simp add: filteredHistory_def keepEntry_no_dates)
  have d: "filteredHistory parse xs sel sd ed = []"
    if "sel \<noteq> ''all''" "\<forall>e\<in>set xs. workshopId e \<noteq> sel"
    unfolding filteredHistory_def filter_empty_conv
    using that keepEntry_split [of parse sel sd ed] by blast
  show ?thesis using a b c d by blast
qed


theorem workshop_filter_witness:
  "filteredHistory Date_parse_iso sampleHistory ''W2'' [] [] = [sampleB, sampleD]
   \<and> filteredHistory Date_parse_iso sampleHistory ''all'' [] [] = sampleHistory
   \<and> ''W9'' \<noteq> ''all''
   \<and> filteredHistory Date_parse_iso sampleHistory ''W9'' ''2024-01-01'' [] = []"
proof -
  have f: "filter (\<lambda>e. ''W2'' = ''all'' \<or> workshopId e = ''W2'') sampleHistory = [sampleB, sampleD]"
    by (simp add: sample_defs)
  have n: "\<forall>e\<in>set sampleHistory. workshopId e \<noteq> ''W9''"
    by (simp add: sample_defs)
  have ne: "''W9'' \<noteq> ''all''" by simp
  show ?thesis
    using workshop_filter [of Date_parse_iso sampleHistory "''W2''" "[]" "[]"]
      workshop_filter [of Date_parse_iso sampleHistory "''W9''" "''2024-01-01''" "[]"] f n ne
    by metis
qed

section \<open>Filtering by date\<close>

lemma js_lt_Some: "js_lt (Some t) b = (\<exists>s. b = Some s \<and> t < s)"
  by (cases b) simp_all

lemma js_gt_Some: "js_gt (Some t) b = (\<exists>u. b = Some u \<and> u < t)"
  by (cases b) simp_all

lemma js_lt_same: "\<not> js_lt a a"
  by (cases a) simp_all

lemma js_gt_same: "\<not> js_gt a a"
  by (cases a) simp_all

lemma keepEntry_dated:
  assumes "parse (maintenanceDate e) = Some t"
  shows "keepEntry parse sel sd ed e =
     ((sel = ''all'' \<or> workshopId e = sel)
      \<and> (sd \<noteq> [] \<longrightarrow> (\<forall>s. parse sd = Some s \<longrightarrow> s \<le> t))
      \<and> (ed \<noteq> [] \<longrightarrow> (\<forall>u. parse ed = Some u \<longrightarrow> t \<le> u)))"
  using assms by (auto simp: keepEntry_def js_lt_Some js_gt_Some)

text \<open>The concrete parser at the dates of the sample data.\<close>

lemma iso_0131: "Date_parse_iso ''2024-01-31'' = Some 1706659200000" by code_simp
lemma iso_0131T: "Date_parse_iso ''2024-01-31T10:00:00Z'' = Some 1706695200000" by code_simp
lemma iso_0201: "Date_parse_iso ''2024-02-01'' = Some 1706745600000" by code_simp
lemma iso_0101: "Date_parse_iso ''2024-01-01'' = Some 1704067200000" by code_simp
lemma iso_0102: "Date_parse_iso ''2024-01-02'' = Some 1704153600000" by code_simp
lemma iso_0103: "Date_parse_iso ''2024-01-03'' = Some 1704240000000" by code_simp
lemma iso_0104: "Date_parse_iso ''2024-01-04'' = Some 1704326400000" by code_simp
lemma iso_0105: "Date_parse_iso ''2024-01-05'' = Some 1704412800000" by code_simp
lemma iso_empty: "Date_parse_iso [] = None" by (simp add: Date_parse_iso_def)

lemmas iso_values = iso_0131 iso_0131T iso_0201 iso_0101 iso_0102 iso_0103 iso_0104 iso_0105 iso_empty

text \<open>
  C3, as the component has it. The date tests compare the instants the strings parse
  to, in milliseconds and with the time of day: an entry whose date parses to \<open>t\<close> is
  kept exactly when the workshop test passes, \<open>t\<close> is not before the instant of a
  present start bound and not after the instant of a present end bound (a bound that
  does not parse excludes nothing). Both bounds are inclusive: an entry whose date
  string is the start bound passes the start test, and one whose date string is the
  end bound passes the end test.
\<close>

theorem date_filter_inclusive_on_instants:
  "(maintenanceDate e = sd \<longrightarrow> keepEntry parse sel sd ed e = keepEntry parse sel [] ed e)
   \<and> (maintenanceDate e = ed \<longrightarrow> keepEntry parse sel sd ed e = keepEntry parse sel sd [] e)
   \<and> (\<forall>t. parse (maintenanceDate e) = Some t \<longrightarrow>
         keepEntry parse sel sd ed e =
           ((sel = ''all'' \<or> workshopId e = sel)
            \<and> (sd \<noteq> [] \<longrightarrow> (\<forall>s. parse sd = Some s \<longrightarrow> s \<le> t))
            \<and> (ed \<noteq> [] \<longrightarrow> (\<forall>u. parse ed = Some u \<longrightarrow> t \<le> u))))"
proof -
  have a: "keepEntry parse sel sd ed e = keepEntry parse sel [] ed e" if "maintenanceDate e = sd"
    using that by (simp add: keepEntry_def js_lt_same)
  have b: "keepEntry parse sel sd ed e = keepEntry parse sel sd [] e" if "maintenanceDate e = ed"
    using that by (simp add: keepEntry_def js_gt_same)
  show ?thesis using a b keepEntry_dated [of parse e _ sel sd ed] by blast
qed

theorem date_filter_inclusive_on_instants_witness:
  "filteredHistory Date_parse_iso sampleHistory ''all'' ''2024-01-02'' ''2024-01-04''
     = [sampleB, sampleC, sampleD]
   \<and> keepEntry Date_parse_iso ''all'' ''2024-01-02'' ''2024-01-04'' sampleB
   \<and> keepEntry Date_parse_iso ''all'' ''2024-01-02'' ''2024-01-04'' sampleD
   \<and> \<not> keepEntry Date_parse_iso ''all'' ''2024-01-02'' ''2024-01-04'' sampleA"
proof -
  have mB: "maintenanceDate sampleB = ''2024-01-02''" by (simp add: sample_defs)
  have mD: "maintenanceDate sampleD = ''2024-01-04''" by (simp add: sample_defs)
  have mA: "Date_parse_iso (maintenanceDate sampleA) = Some 1704067200000"
    by (simp add: sample_defs iso_values)
  have kB0: "keepEntry Date_parse_iso ''all'' [] ''2024-01-04'' sampleB"
    by (simp add: keepEntry_def sample_defs iso_values)
  have kD0: "keepEntry Date_parse_iso ''all'' ''2024-01-02'' [] sampleD"
    by (simp add: keepEntry_def sample_defs iso_values)
  have kB: "keepEntry Date_parse_iso ''all'' ''2024-01-02'' ''2024-01-04'' sampleB"
    using date_filter_inclusive_on_instants
      [of sampleB "''2024-01-02''" Date_parse_iso "''all''" "''2024-01-04''"] mB kB0
    by blast
  have kD: "keepEntry Date_parse_iso ''all'' ''2024-01-02'' ''2024-01-04'' sampleD"
    using date_filter_inclusive_on_instants
      [of sampleD "''2024-01-02''" Date_parse_iso "''all''" "''2024-01-04''"] mD kD0
    by blast
  have kA: "\<not> keepEntry Date_parse_iso ''all'' ''2024-01-02'' ''2024-01-04'' sampleA"
    using date_filter_inclusive_on_instants
      [of sampleA "''2024-01-02''" Date_parse_iso "''all''" "''2024-01-04''"] mA
    by (simp add: iso_values)
  have all: "filteredHistory Date_parse_iso sampleHistory ''all'' ''2024-01-02'' ''2024-01-04''
     = [sampleB, sampleC, sampleD]"
    by (simp add: filteredHistory_def keepEntry_def sample_defs iso_values)
  show ?thesis using all kB kD kA by blast
qed

text \<open>
  C3, as stated, fails: the comparison is not by date alone. An entry logged at 10:00
  UTC on 2024-01-31 falls on the calendar day of the end bound 2024-01-31, and the
  filter drops it, since the bound parses to midnight.
\<close>

theorem date_only_comparison_counterexample:
  "calendarDay Date_parse_iso (maintenanceDate sampleTimed) = Some 19753
   \<and> calendarDay Date_parse_iso ''2024-01-31'' = Some 19753
   \<and> filteredHistory Date_parse_iso [sampleTimed] ''all'' [] ''2024-01-31'' = []"
  by (simp add: calendarDay_def filteredHistory_def keepEntry_def sample_defs iso_values msPerDay_def)

text \<open>
  C7, as the component has it. When both bounds are present, parse to instants with
  the start after the end, and every entry's date parses to an instant, the filter
  returns the empty list; it is a total function and raises nothing.
\<close>

theorem inverted_bounds_empty:
  assumes "sd \<noteq> []" and "ed \<noteq> []"
    and "parse sd = Some s" and "parse ed = Some u" and "u < s"
    and "\<forall>e\<in>set xs. parse (maintenanceDate e) \<noteq> None"
  shows "filteredHistory parse xs sel sd ed = []"
proof -
  have "\<not> keepEntry parse sel sd ed e" if "e \<in> set xs" for e
  proof -
    from that assms(6) obtain t where t: "parse (maintenanceDate e) = Some t" by auto
    show ?thesis
      using assms(1-5) keepEntry_dated [of parse e t sel sd ed, OF t] by auto
  qed
  then show ?thesis by (simp add: filteredHistory_def filter_empty_conv)
qed

theorem inverted_bounds_empty_witness:
  "filteredHistory Date_parse_iso sampleHistory ''all'' ''2024-02-01'' ''2024-01-01'' = []"
proof -
  have v: "\<forall>e\<in>set sampleHistory. Date_parse_iso (maintenanceDate e) \<noteq> None"
    by (simp add: sample_defs iso_values)
  show ?thesis
    by (rule inverted_bounds_empty [where s = 1706745600000 and u = 1704067200000])
       (simp_all add: iso_values v)
qed

text \<open>
  C7, as stated, fails on an entry whose date does not parse: both comparisons with an
  invalid date are false, so the entry passes both date tests whatever the bounds are.
\<close>

theorem inverted_bounds_counterexample:
  "Date_parse_iso ''2024-02-01'' = Some 1706745600000
   \<and> Date_parse_iso ''2024-01-01'' = Some 1704067200000
   \<and> filteredHistory Date_parse_iso [sampleUndated] ''all'' ''2024-02-01'' ''2024-01-01''
       = [sampleUndated]"
  by (simp add: filteredHistory_def keepEntry_def sample_defs iso_values)


section \<open>The inputs are not written to\<close>

lemma load_append_old: "a < length h \<Longrightarrow> load (h @ hs) a = load h a"
  by (simp add: load_def nth_append)

lemma load_append_new: "load (h @ [xs]) (length h) = Some xs"
  by (simp add: load_def)

lemma load_append_new2: "load (h @ [xs, ys]) (length h) = Some xs"
  "load (h @ [xs, ys]) (Suc (length h)) = Some ys"
  by (simp_all add: load_def nth_append)

lemma load_Some_less: "load h a = Some xs \<Longrightarrow> a < length h"
  by (simp add: load_def split: if_splits)

lemma Array_filter_st_value:
  "load h a = Some xs \<Longrightarrow> Array_filter_st p a h = Some (length h, h @ [filter p xs])"
  by (simp add: Array_filter_st_def alloc_def)

lemma Array_spread_st_value:
  "load h a = Some xs \<Longrightarrow> Array_spread_st a h = Some (length h, h @ [xs])"
  by (simp add: Array_spread_st_def alloc_def)

lemma Array_sort_st_last:
  "Array_sort_st c (length h) (h @ [xs]) = Some (h @ [Array_sort c xs])"
  by (simp add: Array_sort_st_def load_def)

lemma Array_reverse_st_last:
  "Array_reverse_st (length h) (h @ [xs]) = Some (h @ [rev xs])"
  by (simp add: Array_reverse_st_def load_def)

lemma sortedHistory_st_value:
  assumes "load h a = Some xs"
  shows "sortedHistory_st parse a key dir h = Some (length h, h @ [sortedHistory parse xs key dir])"
  using assms
  by (simp add: sortedHistory_st_def Array_spread_st_value Array_sort_st_last
      Array_reverse_st_last sortedHistory_def)

lemma displayed_st_value:
  assumes "load h a = Some xs"
  shows "displayed_st parse a st h =
     Some (length h, Suc (length h),
       h @ [filteredHistory parse xs (selectedWorkshop st) (startDate st) (endDate st),
            displayed parse xs st])"
proof -
  let ?f = "filteredHistory parse xs (selectedWorkshop st) (startDate st) (endDate st)"
  have f: "filteredHistory_st parse a (selectedWorkshop st) (startDate st) (endDate st) h
      = Some (length h, h @ [?f])"
    using assms by (simp add: filteredHistory_st_def Array_filter_st_value filteredHistory_def)
  have s: "sortedHistory_st parse (length h) (sortKey st) (sortDirection st) (h @ [?f])
      = Some (Suc (length h), (h @ [?f]) @ [sortedHistory parse ?f (sortKey st) (sortDirection st)])"
    using sortedHistory_st_value [of "h @ [?f]" "length h" ?f, OF load_append_new] by simp
  show ?thesis
    by (simp add: displayed_st_def f s displayed_def)
qed

text \<open>
  C9. Computing the filtered and then the sorted view from the array at address
  \<open>processedHistory\<close> succeeds and leaves every array that existed before, the input
  among them, as it was. The two results are new arrays: the filtered array holds the
  value of \<open>filteredHistory\<close> still after the sort (the sort and the reversal write
  into the copy only), and the sorted array holds the displayed rows.
\<close>

theorem views_leave_inputs_unchanged:
  assumes "load h processedHistory = Some xs"
  shows "\<exists>filtered sorted h'.
      displayed_st parse processedHistory st h = Some (filtered, sorted, h')
    \<and> load h' processedHistory = Some xs
    \<and> (\<forall>a. a < length h \<longrightarrow> load h' a = load h a)
    \<and> length h \<le> filtered \<and> filtered < sorted
    \<and> load h' filtered
        = Some (filteredHistory parse xs (selectedWorkshop st) (startDate st) (endDate st))
    \<and> load h' sorted = Some (displayed parse xs st)"
proof -
  let ?f = "filteredHistory parse xs (selectedWorkshop st) (startDate st) (endDate st)"
  let ?h' = "h @ [?f, displayed parse xs st]"
  have old: "load ?h' a = load h a" if "a < length h" for a
    using that by (rule load_append_old)
  have inp: "load ?h' processedHistory = Some xs"
    using old [OF load_Some_less [OF assms]] assms by simp
  show ?thesis
    using displayed_st_value [OF assms, of parse st] inp old load_append_new2 [of h ?f]
    by (intro exI [of _ "length h"] exI [of _ "Suc (length h)"] exI [of _ ?h']) simp
qed


theorem views_leave_inputs_unchanged_witness:
  "load [sampleHistory] 0 = Some sampleHistory
   \<and> displayed_st Date_parse_iso 0 initialState [sampleHistory]
       = Some (1, 2, [sampleHistory, sampleHistory,
                      [sampleE, sampleD, sampleC, sampleB, sampleA]])"
proof -
  have l: "load [sampleHistory] 0 = Some sampleHistory" by (simp add: load_def)
  from views_leave_inputs_unchanged [OF l, of Date_parse_iso initialState]
  obtain f s h' where
    r: "displayed_st Date_parse_iso 0 initialState [sampleHistory] = Some (f, s, h')"
    and "load h' 0 = Some sampleHistory"
    by blast
  have v: "displayed_st Date_parse_iso 0 initialState [sampleHistory]
       = Some (1, 2, [sampleHistory, sampleHistory,
                      [sampleE, sampleD, sampleC, sampleB, sampleA]])"
    by code_simp
  show ?thesis using l v r by simp
qed


section \<open>Toggling the direction\<close>

text \<open>
  C8. Clicking the header of the active sort key reverses the displayed rows, and
  clicking it a second time gives back the state, and so the rows, from before the
  first click: ascending, descending, ascending shows the first ascending order again.
\<close>

theorem toggle_twice_round_trip:
  assumes "sortKey st = key"
  shows "handleSort key (handleSort key st) = st
    \<and> displayed parse xs (handleSort key (handleSort key st)) = displayed parse xs st
    \<and> displayed parse xs (handleSort key st) = rev (displayed parse xs st)
    \<and> sortKey (handleSort key st) = key"
proof -
  have a: "handleSort key (handleSort key st) = st"
    using assms by (cases "sortDirection st") (simp_all add: handleSort_def)
  have b: "displayed parse xs (handleSort key st) = rev (displayed parse xs st)"
    using assms
    by (cases "sortDirection st") (simp_all add: handleSort_def displayed_def sortedHistory_def)
  have c: "sortKey (handleSort key st) = key"
    using assms by (simp add: handleSort_def)
  show ?thesis using a b c by simp
qed

theorem toggle_twice_round_trip_witness:
  "sortKey initialState = MaintenanceDate
   \<and> displayed Date_parse_iso sampleHistory (handleSort MaintenanceDate initialState)
       = [sampleA, sampleB, sampleC, sampleD, sampleE]
   \<and> displayed Date_parse_iso sampleHistory
        (handleSort MaintenanceDate (handleSort MaintenanceDate initialState))
       = [sampleE, sampleD, sampleC, sampleB, sampleA]
   \<and> displayed Date_parse_iso sampleHistory initialState
       = [sampleE, sampleD, sampleC, sampleB, sampleA]"
proof -
  have k: "sortKey initialState = MaintenanceDate" by (simp add: initialState_def)
  have v: "displayed Date_parse_iso sampleHistory initialState
       = [sampleE, sampleD, sampleC, sampleB, sampleA]"
    by code_simp
  show ?thesis
    using toggle_twice_round_trip [OF k, of Date_parse_iso sampleHistory] k v by simp
qed


section \<open>Clearing the filters\<close>

text \<open>
  C10. The clear-filters action sets the start date and the end date to the empty
  string and the workshop selector to \<^verbatim>\<open>all\<close>; the sort key, the sort direction and
  the entry being edited are as before, and the rows shown are then all the entries
  in the current sort order.
\<close>

theorem clear_filters_keeps_sort:
  "startDate (clearFilters st) = []
   \<and> endDate (clearFilters st) = []
   \<and> selectedWorkshop (clearFilters st) = ''all''
   \<and> sortKey (clearFilters st) = sortKey st
   \<and> sortDirection (clearFilters st) = sortDirection st
   \<and> editingEntry (clearFilters st) = editingEntry st
   \<and> displayed parse xs (clearFilters st) = sortedHistory parse xs (sortKey st) (sortDirection st)"
  by (simp add: clearFilters_def displayed_def filteredHistory_def keepEntry_no_dates)

theorem clear_filters_keeps_sort_witness:
  "clearFilters \<lparr>editingEntry = None, sortKey = StatusKey, sortDirection = Asc,
       startDate = ''2024-01-02'', endDate = ''2024-01-04'', selectedWorkshop = ''W1''\<rparr>
     = \<lparr>editingEntry = None, sortKey = StatusKey, sortDirection = Asc,
       startDate = [], endDate = [], selectedWorkshop = ''all''\<rparr>"
  using clear_filters_keeps_sort [of "\<lparr>editingEntry = None, sortKey = StatusKey, sortDirection = Asc,
       startDate = ''2024-01-02'', endDate = ''2024-01-04'', selectedWorkshop = ''W1''\<rparr>"]
  by (simp add: clearFilters_def)


section \<open>The edit quota\<close>

text \<open>
  C6. The edit action of a row is enabled exactly when the entry's edit count is below
  2. With an edit count of 2 or more a click changes nothing, whatever the role; below
  2 an editor's click opens the entry for editing, with at least one edit left.
\<close>

theorem edit_quota_guard:
  "canEdit e = (editCount e < 2)
   \<and> (2 \<le> editCount e \<longrightarrow> clickEdit role e st = st)
   \<and> (editCount e < 2 \<longrightarrow> editingEntry (clickEdit Editor e st) = Some e \<and> 0 < editsLeft e)"
  by (auto simp: canEdit_def editDisabled_def clickEdit_def editsLeft_def)

theorem edit_quota_guard_witness:
  "canEdit sampleB \<and> editCount sampleB = 1
   \<and> editingEntry (clickEdit Editor sampleB initialState) = Some sampleB
   \<and> \<not> canEdit sampleC \<and> editCount sampleC = 2
   \<and> clickEdit Editor sampleC initialState = initialState"
proof -
  have b: "editCount sampleB = 1" and c: "editCount sampleC = 2"
    by (simp_all add: sample_defs)
  show ?thesis
    using edit_quota_guard [of sampleB Editor initialState]
      edit_quota_guard [of sampleC Editor initialState] b c
    by simp
qed


section \<open>Timeliness\<close>

lemma timeliness_cases:
  "timeliness r m i = (if m + i < r then (Overdue, r - (m + i)) else (OnTime, 0))"
  by (simp add: timeliness_def Let_def)

lemma deriveEntry_Some:
  assumes "deriveEntry dayOf r ws x = Some e"
  shows "\<exists>w. findWorkshop ws (workshopId x) = Some w
    \<and> workshopId e = workshopId x \<and> maintenanceDate e = maintenanceDate x
    \<and> editCount e = editCount x \<and> workshopName e = Workshop_name w
    \<and> (status e, overdueDays e) = timeliness r (dayOf (maintenanceDate x)) (Workshop_interval w)"
  using assms
  by (auto simp: deriveEntry_def HistoryEntry.extend_def HistoryEntryWithStatus.fields_def
      HistoryEntry.defs HistoryEntryWithStatus.defs
      split: option.splits prod.splits)

lemma in_map_filter:
  "y \<in> set (List.map_filter f xs) \<longleftrightarrow> (\<exists>x\<in>set xs. f x = Some y)"
  by (induction xs) (auto split: option.splits)

text \<open>
  C5. Every derived entry has a positive number of overdue days exactly when its status
  is overdue. When the reference day is after the due day (maintenance day plus the
  interval of the entry's workshop) the entry is overdue by the difference of the two,
  at least 1; otherwise, also on the due day itself, it is on time with 0 days.
\<close>

theorem overdue_days_iff_overdue:
  assumes "e \<in> set (calculateHistoryTimeliness dayOf referenceDay history workshops)"
  shows "(0 < overdueDays e) = (status e = Overdue)
    \<and> (\<exists>w. findWorkshop workshops (workshopId e) = Some w
        \<and> (if dayOf (maintenanceDate e) + Workshop_interval w < referenceDay
           then status e = Overdue
             \<and> overdueDays e = referenceDay - (dayOf (maintenanceDate e) + Workshop_interval w)
             \<and> 1 \<le> overdueDays e
           else status e = OnTime \<and> overdueDays e = 0))"
proof -
  from assms obtain x where "deriveEntry dayOf referenceDay workshops x = Some e"
    by (auto simp: calculateHistoryTimeliness_def in_map_filter)
  from deriveEntry_Some [OF this] obtain w where
    w: "findWorkshop workshops (workshopId e) = Some w"
    and t: "(status e, overdueDays e)
        = timeliness referenceDay (dayOf (maintenanceDate e)) (Workshop_interval w)"
    by auto
  show ?thesis using w t by (auto simp: timeliness_cases split: if_splits)
qed

lemma day_0205: "dayOf_iso ''2024-02-05'' = 19758" by code_simp
lemma day_0131: "dayOf_iso ''2024-01-31'' = 19753" by code_simp
lemma day_0101: "dayOf_iso ''2024-01-01'' = 19723" by code_simp

theorem overdue_days_iff_overdue_witness:
  "calculateHistoryTimeliness dayOf_iso (dayOf_iso ''2024-02-05'') [sampleRaw] sampleWorkshops
     = [HistoryEntry.extend sampleRaw (HistoryEntryWithStatus.fields ''Workshop 1'' Overdue 5)]
   \<and> status (HistoryEntry.extend sampleRaw (HistoryEntryWithStatus.fields ''Workshop 1'' Overdue 5))
       = Overdue
   \<and> 0 < overdueDays
       (HistoryEntry.extend sampleRaw (HistoryEntryWithStatus.fields ''Workshop 1'' Overdue 5))
   \<and> map (\<lambda>e. (status e, overdueDays e))
       (calculateHistoryTimeliness dayOf_iso (dayOf_iso ''2024-01-31'') [sampleRaw] sampleWorkshops)
       = [(OnTime, 0)]"
proof -
  let ?e = "HistoryEntry.extend sampleRaw (HistoryEntryWithStatus.fields ''Workshop 1'' Overdue 5)"
  have v: "calculateHistoryTimeliness dayOf_iso (dayOf_iso ''2024-02-05'') [sampleRaw] sampleWorkshops
     = [?e]"
    by (simp add: calculateHistoryTimeliness_def deriveEntry_def findWorkshop_def
        sampleWorkshops_def sampleRaw_def timeliness_cases day_0205 day_0101)
  have w: "map (\<lambda>e. (status e, overdueDays e))
       (calculateHistoryTimeliness dayOf_iso (dayOf_iso ''2024-01-31'') [sampleRaw] sampleWorkshops)
       = [(OnTime, 0)]"
    by (simp add: calculateHistoryTimeliness_def deriveEntry_def findWorkshop_def
        sampleWorkshops_def sampleRaw_def timeliness_cases day_0131 day_0101
        HistoryEntry.extend_def HistoryEntryWithStatus.fields_def
        HistoryEntry.defs HistoryEntryWithStatus.defs)
  have m: "?e \<in> set (calculateHistoryTimeliness dayOf_iso (dayOf_iso ''2024-02-05'')
      [sampleRaw] sampleWorkshops)"
    by (simp add: v)
  have s: "status ?e = Overdue"
    by (simp add: HistoryEntry.extend_def HistoryEntryWithStatus.fields_def
        HistoryEntry.defs HistoryEntryWithStatus.defs sampleRaw_def)
  from overdue_days_iff_overdue [OF m] s have "0 < overdueDays ?e" by blast
  with v w s show ?thesis by blast
qed

end
